theory Spec2Isabelle
  imports Main "HOL-Library.Word" "HOL-Library.Multiset"
begin

unbundle bit_operations_syntax

section \<open>Python values: bytes, indexing, slicing, exceptions\<close>

text \<open>
  A \<^verbatim>\<open>bytes\<close> object is a list of 8-bit words; indexing it yields a Python
  \<^verbatim>\<open>int\<close> in \<open>0..255\<close>, which is \<^term>\<open>uint\<close> of the byte. Python integers
  are unbounded, so every offset, length and coordinate is an \<^typ>\<open>int\<close>.
  Exceptions are values of \<open>py_error\<close>; a function that can raise returns
  \<open>py_error + 'a\<close>.
\<close>

type_synonym byte = "8 word"

datatype py_error = IndexError | ValueError | UnicodeDecodeError

definition ebind :: "py_error + 'a \<Rightarrow> ('a \<Rightarrow> py_error + 'b) \<Rightarrow> py_error + 'b" where
  "ebind m f = (case m of Inl e \<Rightarrow> Inl e | Inr v \<Rightarrow> f v)"

definition py_index :: "'a list \<Rightarrow> int \<Rightarrow> py_error + 'a" where
  \<comment> \<open>\<^verbatim>\<open>xs[i]\<close>: a negative index counts from the end; out of range raises IndexError.\<close>
  "py_index xs i =
     (let n = int (length xs); j = (if i < 0 then i + n else i)
      in if 0 \<le> j \<and> j < n then Inr (xs ! nat j) else Inl IndexError)"

definition slice_bound :: "int \<Rightarrow> int \<Rightarrow> int" where
  \<comment> \<open>How a slice bound is adjusted to a sequence of length \<open>n\<close>.\<close>
  "slice_bound n i = (if i < 0 then max 0 (i + n) else min i n)"

definition py_slice :: "'a list \<Rightarrow> int \<Rightarrow> int \<Rightarrow> 'a list" where
  \<comment> \<open>\<^verbatim>\<open>xs[a:b]\<close>: never raises; bounds are clipped to the sequence.\<close>
  "py_slice xs a b =
     (let n = int (length xs); lo = slice_bound n a; hi = slice_bound n b
      in take (nat (hi - lo)) (drop (nat lo) xs))"

section \<open>Primitive reader (map\_data\_parser.py, lines 390--409)\<close>

definition get_bytes :: "byte list \<Rightarrow> int \<Rightarrow> int \<Rightarrow> byte list" where
  "get_bytes data start_index size_n = py_slice data start_index (start_index + size_n)"


definition get_int16 :: "byte list \<Rightarrow> int \<Rightarrow> py_error + int" where
  "get_int16 data address =
     ebind (py_index data (address + 0)) (\<lambda>b0.
     ebind (py_index data (address + 1)) (\<lambda>b1.
       Inr ((push_bit 0 (uint b0) AND 0xFF) OR (push_bit 8 (uint b1) AND 0xFFFF))))"

definition get_int32 :: "byte list \<Rightarrow> int \<Rightarrow> py_error + int" where
  "get_int32 data address =
     ebind (py_index data (address + 0)) (\<lambda>b0.
     ebind (py_index data (address + 1)) (\<lambda>b1.
     ebind (py_index data (address + 2)) (\<lambda>b2.
     ebind (py_index data (address + 3)) (\<lambda>b3.
       Inr ((push_bit 0 (uint b0) AND 0xFF)
            OR (push_bit 8 (uint b1) AND 0xFFFF)
            OR (push_bit 16 (uint b2) AND 0xFFFFFF)
            OR (push_bit 24 (uint b3) AND 0xFFFFFFFF))))))"

section \<open>Pixel classification (image\_parser.py)\<close>

datatype SupportedColor =
  CARPETS | MAP_OUTSIDE | MAP_WALL | MAP_INSIDE | SCAN | GREY_WALL | MAP_WALL_V2 | UNKNOWN

definition MAP_OUTSIDE_code :: int where "MAP_OUTSIDE_code = 0x00"
definition MAP_WALL_code :: int where "MAP_WALL_code = 0x01"
definition MAP_INSIDE_code :: int where "MAP_INSIDE_code = 0xFF"
definition MAP_SCAN_code :: int where "MAP_SCAN_code = 0x07"

definition get_room_number :: "int \<Rightarrow> int" where
  "get_room_number pixel_type = drop_bit 3 (pixel_type AND 0xFF)"

text \<open>
  The \<^verbatim>\<open>elif\<close> chain of \<^verbatim>\<open>parse\<close> (lines 53--88) on the pixel code: either one
  of the fixed palette entries is painted, or the pixel is a room pixel with a room number.
\<close>

datatype pixel_kind = Fixed SupportedColor | RoomPixel int

definition classify_pixel :: "int \<Rightarrow> pixel_kind" where
  "classify_pixel pixel_type =
     (if pixel_type = MAP_OUTSIDE_code then Fixed MAP_OUTSIDE
      else if pixel_type = MAP_WALL_code then Fixed MAP_WALL
      else if pixel_type = MAP_INSIDE_code then Fixed MAP_INSIDE
      else if pixel_type = MAP_SCAN_code then Fixed SCAN
      else (let obstacle = pixel_type AND 0x07
            in if obstacle = 0 then Fixed GREY_WALL
               else if obstacle = 1 then Fixed MAP_WALL_V2
               else if obstacle = 7 then RoomPixel (get_room_number pixel_type)
               else Fixed UNKNOWN))"

definition get_room_at_pixel :: "byte list \<Rightarrow> int \<Rightarrow> int \<Rightarrow> int \<Rightarrow> py_error + int option" where
  "get_room_at_pixel raw_data width x y =
     ebind (py_index raw_data (x + width * y)) (\<lambda>b.
       let pixel_type = uint b
       in if pixel_type \<notin> set [MAP_INSIDE_code, MAP_SCAN_code]
          then (if pixel_type AND 0x07 = 7 then Inr (Some (get_room_number pixel_type))
                else Inr None)
          else Inr None)"

text \<open>The classifier as the specification words it, on the byte itself.\<close>

datatype category =
  Outside | Wall | Inside | Scan | GreyWall | WallV2 | RoomFloor byte | Unknown

definition spec_classify :: "byte \<Rightarrow> category" where
  "spec_classify pixel_code =
     (if pixel_code = 0x00 then Outside
      else if pixel_code = 0x01 then Wall
      else if pixel_code = 0xFF then Inside
      else if pixel_code = 0x07 then Scan
      else (let obstacle = pixel_code AND 0x07
            in if obstacle = 0 then GreyWall
               else if obstacle = 1 then WallV2
               else if obstacle = 7 then RoomFloor (drop_bit 3 (pixel_code AND 0xFF))
               else Unknown))"

section \<open>Loops and ranges\<close>

definition py_range :: "int \<Rightarrow> int \<Rightarrow> int \<Rightarrow> py_error + int list" where
  \<comment> \<open>\<^verbatim>\<open>range(start, stop, step)\<close>; a zero step raises ValueError.\<close>
  "py_range start stop step =
     (if step = 0 then Inl ValueError
      else if 0 < step
        then Inr (map (\<lambda>k. start + int k * step) [0..<nat ((stop - start + step - 1) div step)])
        else Inr (map (\<lambda>k. start + int k * step) [0..<nat ((start - stop - step - 1) div (- step))]))"

definition py_range1 :: "int \<Rightarrow> int list" where
  \<comment> \<open>\<^verbatim>\<open>range(n)\<close>\<close>
  "py_range1 n = map int [0..<nat n]"

fun emap :: "('a \<Rightarrow> py_error + 'b) \<Rightarrow> 'a list \<Rightarrow> py_error + 'b list" where
  "emap f [] = Inr []"
| "emap f (v # vs) = ebind (f v) (\<lambda>r. ebind (emap f vs) (\<lambda>rs. Inr (r # rs)))"

fun efold :: "('a \<Rightarrow> 's \<Rightarrow> py_error + 's) \<Rightarrow> 'a list \<Rightarrow> 's \<Rightarrow> py_error + 's" where
  "efold f [] s = Inr s"
| "efold f (v # vs) s = ebind (f v s) (efold f vs)"

section \<open>Result values (vacuum\_map\_parser\_base.map\_data)\<close>

datatype Point = Point (point_x: int) (point_y: int) (point_a: "int option")

datatype Path =
  Path (path_point_length: int) (path_point_size: int) (path_angle: int)
       (path_path: "Point list list")

datatype Wall = Wall int int int int



text \<open>
  The confidence level is the float \<^verbatim>\<open>u1 * 10.0 / u2\<close>; the model keeps the two
  integers of the quotient instead of a float.
\<close>

datatype confidence = ConfidenceZero | ConfidenceQuotient int int

record ObstacleDetails =
  details_type :: "int option"
  details_description :: "string option"
  details_confidence_level :: "confidence option"
  details_photo_name :: "string option"

datatype Obstacle = Obstacle int int ObstacleDetails


section \<open>Block decoders (map\_data\_parser.py, lines 267--388)\<close>



definition parse_object_position :: "int \<Rightarrow> byte list \<Rightarrow> py_error + Point" where
  "parse_object_position block_data_length data =
     ebind (get_int32 data 0x00) (\<lambda>x.
     ebind (get_int32 data 0x04) (\<lambda>y.
       if block_data_length > 8
       then ebind (get_int32 data 0x08) (\<lambda>a.
              if a > 0xFF then Inr (Point x y (Some ((a AND 0xFF) - 256)))
              else Inr (Point x y (Some a)))
       else Inr (Point x y None)))"




definition KNOWN_OBSTACLE_TYPES :: "(int \<times> string) list" where
  "KNOWN_OBSTACLE_TYPES =
     [(0, ''cable''), (1, ''pet waste''), (2, ''shoes''), (3, ''poop''), (4, ''pedestal''),
      (5, ''extension cord''), (9, ''weighting scale''), (10, ''clothes''), (25, ''dustpan''),
      (26, ''furniture with a crossbar''), (27, ''furniture with a crossbar''),
      (34, ''clothes''), (48, ''cable''), (49, ''pet''), (50, ''pet''),
      (51, ''fabric/paper balls'')]"

definition decode_ascii :: "byte list \<Rightarrow> py_error + string" where
  \<comment> \<open>\<^verbatim>\<open>txt.decode("ascii")\<close>: a byte above 0x7F raises UnicodeDecodeError.\<close>
  "decode_ascii txt =
     (if list_all (\<lambda>b. uint b < 128) txt then Inr (map (\<lambda>b. char_of (uint b)) txt)
      else Inl UnicodeDecodeError)"

definition new_details :: ObstacleDetails where
  "new_details = \<lparr>details_type = None, details_description = None,
                  details_confidence_level = None, details_photo_name = None\<rparr>"

definition parse_obstacle :: "byte list \<Rightarrow> int \<Rightarrow> int \<Rightarrow> py_error + Obstacle" where
  \<comment> \<open>The body of the loop of \<^verbatim>\<open>_parse_obstacles\<close> (lines 313--327).\<close>
  "parse_obstacle data obstacle_size obstacle_start =
     ebind (get_int16 data (obstacle_start + 0)) (\<lambda>x.
     ebind (get_int16 data (obstacle_start + 2)) (\<lambda>y.
     ebind
       (if obstacle_size \<ge> 6
        then ebind (get_int16 data (obstacle_start + 4)) (\<lambda>t.
          let d1 = new_details\<lparr>details_type := Some t,
                                details_description := map_of KNOWN_OBSTACLE_TYPES t\<rparr>
          in if obstacle_size \<ge> 10
             then ebind (get_int16 data (obstacle_start + 6)) (\<lambda>u1.
                  ebind (get_int16 data (obstacle_start + 8)) (\<lambda>u2.
                    let d2 = d1\<lparr>details_confidence_level :=
                               Some (if u2 = 0 then ConfidenceZero
                                     else ConfidenceQuotient (u1 * 10) u2)\<rparr>
                    in if obstacle_size = 28
                       then ebind (py_index data (obstacle_start + 12)) (\<lambda>b.
                              if uint b AND 0xFF > 0
                              then ebind (decode_ascii (get_bytes data (obstacle_start + 12) 16))
                                     (\<lambda>name. Inr (d2\<lparr>details_photo_name := Some name\<rparr>))
                              else Inr d2)
                       else Inr d2))
             else Inr d1)
        else Inr new_details)
       (\<lambda>details. Inr (Obstacle x y details))))"

definition parse_obstacles :: "byte list \<Rightarrow> byte list \<Rightarrow> py_error + Obstacle list" where
  "parse_obstacles data header =
     ebind (get_int16 header 0x08) (\<lambda>obstacle_pairs.
       if obstacle_pairs = 0 then Inr []
       else (let obstacle_size = int (length data) div obstacle_pairs
             in ebind (py_range 0 (obstacle_pairs * obstacle_size) obstacle_size) (\<lambda>starts.
                  emap (parse_obstacle data obstacle_size) starts)))"


text \<open>
  \<^verbatim>\<open>_parse_mop_path\<close> (lines 356--372); its \<^verbatim>\<open>mask\<close> is \<open>points_mask\<close> here. The state of the inner loop is
  \<open>(mop_paths, points_num, mop_path_points)\<close>; \<open>mop_path_points\<close> starts empty for
  each polyline of the path, and whatever it holds after the polyline is appended, empty
  or not.
\<close>

definition mop_point ::
  "byte list \<Rightarrow> nat \<times> Point \<Rightarrow> Point list list \<times> int \<times> Point list
     \<Rightarrow> py_error + Point list list \<times> int \<times> Point list" where
  "mop_point points_mask ip st =
     (case (ip, st) of ((i, point), (mop_paths, points_num, mop_path_points)) \<Rightarrow>
        ebind (py_index points_mask (int i)) (\<lambda>m.
          if m \<noteq> 0
          then (let mop_path_points = mop_path_points @ [point]
                in if int i + 1 < int (length points_mask)
                   then ebind (py_index points_mask (int i + 1)) (\<lambda>m1.
                          if m1 = 0
                          then Inr (mop_paths @ [mop_path_points],
                                    points_num + int (length mop_path_points), [])
                          else Inr (mop_paths, points_num, mop_path_points))
                   else Inr (mop_paths, points_num, mop_path_points))
          else Inr (mop_paths, points_num, mop_path_points)))"

definition mop_each_path ::
  "byte list \<Rightarrow> Point list \<Rightarrow> Point list list \<times> int \<Rightarrow> py_error + Point list list \<times> int" where
  "mop_each_path points_mask each_path st =
     (case st of (mop_paths, points_num) \<Rightarrow>
        ebind (efold (mop_point points_mask) (enumerate 0 each_path) (mop_paths, points_num, []))
          (\<lambda>(mop_paths, points_num, mop_path_points).
             Inr (mop_paths @ [mop_path_points], points_num + int (length mop_path_points))))"

definition parse_mop_path :: "Path \<Rightarrow> byte list \<Rightarrow> py_error + Path" where
  "parse_mop_path path points_mask =
     ebind (efold (mop_each_path points_mask) (path_path path) ([], 0))
       (\<lambda>(mop_paths, points_num).
          Inr (Path points_num (path_point_size path) (path_angle path) mop_paths))"

section \<open>Image decoder (image\_parser.py, lines 26--91)\<close>

text \<open>
  The palette and the image configuration are objects of vacuum\_map\_parser\_base.
  The model takes from them: \<open>cached_colors\<close>, the colour of each fixed palette entry;
  \<open>get_room_color\<close>, the palette's colour for a room number; the dictionary
  \<open>cached_room_colors\<close>, which \<^verbatim>\<open>parse\<close> reads from the palette object (line 32)
  and writes on a missing key (line 85), so it is passed in and returned; and the four
  trim offsets in pixels as lines 33--36 compute them from the configured percentages.
  The raster is the map of the pixels written, with its size; the final resampling by
  \<^verbatim>\<open>scale\<close> (lines 89--90) is the imaging library's and is left out.
  \<^verbatim>\<open>Image.new\<close> (line 40) raises ValueError for a negative width or height, before
  the test for an empty source. When an exception is raised the model returns the
  exception only.
\<close>

record image_trim =
  px_left :: int
  px_right :: int
  px_top :: int
  px_bottom :: int

type_synonym rooms_raw = "int \<rightharpoonup> int \<times> int \<times> int \<times> int"

type_synonym 'c raster = "int \<times> int \<times> (int \<times> int \<rightharpoonup> 'c)"

definition room_update :: "rooms_raw \<Rightarrow> int \<Rightarrow> int \<Rightarrow> int \<Rightarrow> rooms_raw" where
  \<comment> \<open>lines 71--79\<close>
  "room_update rooms room_number room_x room_y =
     (case rooms room_number of
        None \<Rightarrow> rooms(room_number \<mapsto> (room_x, room_y, room_x, room_y))
      | Some (x0, y0, x1, y1) \<Rightarrow>
          rooms(room_number \<mapsto> (min x0 room_x, min y0 room_y, max x1 room_x, max y1 room_y)))"

definition row_offset :: "int \<Rightarrow> int \<Rightarrow> int \<Rightarrow> int \<Rightarrow> int" where
  \<comment> \<open>\<^verbatim>\<open>img_x_offset\<close> of lines 39 and 45\<close>
  "row_offset width trim_left trim_bottom img_y =
     (let trimmed_left_width = trim_left + width
      in trimmed_left_width * (img_y + trim_bottom))"

definition pixel_step ::
  "(SupportedColor \<Rightarrow> 'c) \<Rightarrow> (int \<Rightarrow> 'c) \<Rightarrow> byte list \<Rightarrow> int set option \<Rightarrow> int \<Rightarrow> int \<Rightarrow> int
     \<Rightarrow> int \<Rightarrow> int \<Rightarrow> int \<Rightarrow> (int \<times> int \<rightharpoonup> 'c) \<times> rooms_raw \<times> (int \<rightharpoonup> 'c)
     \<Rightarrow> py_error + (int \<times> int \<rightharpoonup> 'c) \<times> rooms_raw \<times> (int \<rightharpoonup> 'c)" where
  \<comment> \<open>The body of the inner loop (lines 47--88).\<close>
  "pixel_step cached_colors get_room_color raw_data carpet_map trim_left trim_bottom
       trimmed_height img_x_offset img_y img_x st =
     (case st of (pixels, rooms, cached_room_colors) \<Rightarrow>
        let idx = img_x + img_x_offset
        in ebind (py_index raw_data idx) (\<lambda>b.
             let pixel_type = uint b;
                 x = img_x;
                 y = trimmed_height - img_y - 1
             in if carpet_map \<noteq> None \<and> idx \<in> the carpet_map \<and> (x + y) mod 2 \<noteq> 0
                then Inr (pixels((x, y) \<mapsto> cached_colors CARPETS), rooms, cached_room_colors)
                else (case classify_pixel pixel_type of
                        Fixed c \<Rightarrow> Inr (pixels((x, y) \<mapsto> cached_colors c), rooms, cached_room_colors)
                      | RoomPixel room_number \<Rightarrow>
                          let room_x = img_x + trim_left;
                              room_y = img_y + trim_bottom;
                              rooms = room_update rooms room_number room_x room_y
                          in (case cached_room_colors room_number of
                                Some c \<Rightarrow> Inr (pixels((x, y) \<mapsto> c), rooms, cached_room_colors)
                              | None \<Rightarrow>
                                  let cached_room_colors =
                                        cached_room_colors(room_number \<mapsto> get_room_color room_number)
                                  in Inr (pixels((x, y) \<mapsto> get_room_color room_number),
                                          rooms, cached_room_colors)))))"

definition image_parse ::
  "(SupportedColor \<Rightarrow> 'c) \<Rightarrow> (int \<Rightarrow> 'c) \<Rightarrow> image_trim \<Rightarrow> (int \<rightharpoonup> 'c) \<Rightarrow> byte list \<Rightarrow> int \<Rightarrow> int
     \<Rightarrow> int set option \<Rightarrow> py_error + 'c raster option \<times> rooms_raw \<times> (int \<rightharpoonup> 'c)" where
  "image_parse cached_colors get_room_color trim cached_room_colors raw_data width height carpet_map =
     (let trim_left = px_left trim;
          trim_right = px_right trim;
          trim_top = px_top trim;
          trim_bottom = px_bottom trim;
          trimmed_height = height - trim_top - trim_bottom;
          trimmed_width = width - trim_left - trim_right
      in if trimmed_width < 0 \<or> trimmed_height < 0 then Inl ValueError
         else if width = 0 \<or> height = 0 then Inr (None, Map.empty, cached_room_colors)
         else ebind
                (efold (\<lambda>img_y.
                          efold (pixel_step cached_colors get_room_color raw_data carpet_map
                                   trim_left trim_bottom trimmed_height
                                   (row_offset width trim_left trim_bottom img_y) img_y)
                            (py_range1 trimmed_width))
                   (py_range1 trimmed_height)
                   (Map.empty, Map.empty, cached_room_colors))
                (\<lambda>(pixels, rooms, cached_room_colors).
                   Inr (Some (trimmed_width, trimmed_height, pixels), rooms, cached_room_colors)))"

section \<open>Stream walker (map\_data\_parser.py, lines 93--265)\<close>



















text \<open>
  The unsigned little-endian value of the four bytes at an offset, as the specification
  describes \<open>u32_at\<close>.
\<close>

definition u32_at :: "byte list \<Rightarrow> nat \<Rightarrow> int" where
  "u32_at buffer offset =
     uint (buffer ! offset) + 256 * uint (buffer ! (offset + 1))
       + 65536 * uint (buffer ! (offset + 2)) + 16777216 * uint (buffer ! (offset + 3))"




text \<open>
  The maximal contiguous runs of points whose mask byte is non-zero, in order, as the
  specification describes the polylines of a mop path.
\<close>

function mask_runs :: "('a \<times> byte) list \<Rightarrow> 'a list list" where
  "mask_runs [] = []"
| "mask_runs ((p, m) # rest) =
     (if m = 0 then mask_runs rest
      else (p # map fst (takeWhile (\<lambda>(q, k). k \<noteq> 0) rest))
             # mask_runs (dropWhile (\<lambda>(q, k). k \<noteq> 0) rest))"
  by pat_completeness auto

termination mask_runs
  by (relation "measure length") (auto simp: less_Suc_eq_le length_dropWhile_le)

text \<open>
  The inner loop of \<^verbatim>\<open>_parse_mop_path\<close> read on the list of points paired with their
  mask bytes: the polylines it appends and the polyline left open at the end.
\<close>

fun mop_split :: "'a list \<Rightarrow> ('a \<times> byte) list \<Rightarrow> 'a list list \<times> 'a list" where
  "mop_split cur [] = ([], cur)"
| "mop_split cur ((p, m) # rest) =
     (if m \<noteq> 0
      then (case rest of
              [] \<Rightarrow> ([], cur @ [p])
            | (q, k) # _ \<Rightarrow>
                if k = 0 then ((cur @ [p]) # fst (mop_split [] rest), snd (mop_split [] rest))
                else mop_split (cur @ [p]) rest)
      else mop_split cur rest)"

text \<open>The runs, and one more empty polyline when no run ends the mask.\<close>

definition expected_polylines :: "('a \<times> byte) list \<Rightarrow> 'a list list" where
  "expected_polylines zs =
     mask_runs zs @ (if zs = [] \<or> snd (last zs) = 0 then [[]] else [])"





section \<open>Basic facts\<close>

lemma ebind_Inr [simp]: "ebind (Inr v) f = f v"
  by (simp add: ebind_def)

lemma ebind_Inl [simp]: "ebind (Inl e) f = Inl e"
  by (simp add: ebind_def)

lemma ebind_eq_Inr: "ebind m f = Inr r \<longleftrightarrow> (\<exists>v. m = Inr v \<and> f v = Inr r)"
  by (cases m) simp_all

lemma py_index_in_range:
  "0 \<le> i \<Longrightarrow> i < int (length xs) \<Longrightarrow> py_index xs i = Inr (xs ! nat i)"
  by (simp add: py_index_def)

lemma py_index_beyond: "int (length xs) \<le> i \<Longrightarrow> py_index xs i = Inl IndexError"
  by (simp add: py_index_def)

lemma get_bytes_nonneg:
  "0 \<le> start \<Longrightarrow> 0 \<le> n \<Longrightarrow> get_bytes data start n = take (nat n) (drop (nat start) data)"
  by (auto simp: get_bytes_def py_slice_def slice_bound_def Let_def min_def
        nat_diff_distrib nat_add_distrib)

subsection \<open>Bytes as integers\<close>

lemma uint_byte_bounds: "0 \<le> uint (b::byte)" "uint b < 256"
  using uint_bounded [of b] by simp_all

lemma uint_byte_and: "uint (b::byte) AND uint (c::byte) = uint (b AND c)"
  by (simp add: uint_and)

lemma uint_byte_eq_iff: "uint (b::byte) = uint (c::byte) \<longleftrightarrow> b = c"
  by (simp add: word_uint_eq_iff)

lemma byte_and_255: "(b::byte) AND 255 = b"
proof -
  have "(255::byte) = - 1" by simp
  then have "b AND 255 = b AND (- 1)" by (simp only:)
  then show ?thesis by (simp only: and.right_neutral)
qed

lemma uint_byte_and_255: "uint (b::byte) AND 255 = uint b"
  using uint_byte_and [of b 255] by (simp add: byte_and_255)

lemma uint_byte_and_7: "uint (b::byte) AND 7 = uint (b AND 7)"
  using uint_byte_and [of b 7] by simp

lemma uint_byte_mod: "uint (b::byte) mod 256 = uint b"
  using uint_byte_bounds [of b] by simp

lemma drop_bit_uint_byte: "drop_bit 3 (uint (b::byte)) = uint (drop_bit 3 b)"
  by (simp add: unsigned_drop_bit_eq take_bit_eq_mod uint_byte_mod)

lemma uint_byte_is:
  "uint (b::byte) = 0 \<longleftrightarrow> b = 0" "uint b = 1 \<longleftrightarrow> b = 1"
  "uint b = 255 \<longleftrightarrow> b = 255" "uint b = 7 \<longleftrightarrow> b = 7"
  using uint_byte_eq_iff [of b 0] uint_byte_eq_iff [of b 1] uint_byte_eq_iff [of b 255]
    uint_byte_eq_iff [of b 7]
  by simp_all

subsection \<open>The readers compute the little-endian value\<close>

lemma and_mask_self: "0 \<le> (x::int) \<Longrightarrow> x < 2 ^ n \<Longrightarrow> x AND (2 ^ n - 1) = x"
  by (simp add: take_bit_int_eq_self flip: take_bit_eq_mask mask_eq_exp_minus_1)

lemma or_push_bit_add:
  "0 \<le> (x::int) \<Longrightarrow> x < 2 ^ n \<Longrightarrow> x OR push_bit n y = x + 2 ^ n * y"
  using concat_bit_eq [of n x y]
  by (simp add: concat_bit_def take_bit_int_eq_self push_bit_eq_mult mult.commute)

lemma le16_value:
  "(push_bit 0 (uint (b0::byte)) AND 0xFF) OR (push_bit 8 (uint (b1::byte)) AND 0xFFFF)
     = uint b0 + 256 * uint b1"
proof -
  have a0: "uint b0 AND 0xFF = uint b0"
    using and_mask_self [of "uint b0" 8] uint_byte_bounds [of b0] by simp
  have a1: "push_bit 8 (uint b1) AND 0xFFFF = push_bit 8 (uint b1)"
    using and_mask_self [of "push_bit 8 (uint b1)" 16] uint_byte_bounds [of b1]
    by (simp add: push_bit_eq_mult)
  show ?thesis
    using or_push_bit_add [of "uint b0" 8 "uint b1"] uint_byte_bounds [of b0]
    by (simp add: a0 a1)
qed

lemma le32_value:
  "(push_bit 0 (uint (b0::byte)) AND 0xFF) OR (push_bit 8 (uint (b1::byte)) AND 0xFFFF)
      OR (push_bit 16 (uint (b2::byte)) AND 0xFFFFFF)
      OR (push_bit 24 (uint (b3::byte)) AND 0xFFFFFFFF)
     = uint b0 + 256 * uint b1 + 65536 * uint b2 + 16777216 * uint b3"
proof -
  have a2: "push_bit 16 (uint b2) AND 0xFFFFFF = push_bit 16 (uint b2)"
    using and_mask_self [of "push_bit 16 (uint b2)" 24] uint_byte_bounds [of b2]
    by (simp add: push_bit_eq_mult)
  have a3: "push_bit 24 (uint b3) AND 0xFFFFFFFF = push_bit 24 (uint b3)"
    using and_mask_self [of "push_bit 24 (uint b3)" 32] uint_byte_bounds [of b3]
    by (simp add: push_bit_eq_mult)
  have s1: "uint b0 + 256 * uint b1 < 2 ^ 16" "0 \<le> uint b0 + 256 * uint b1"
    using uint_byte_bounds [of b0] uint_byte_bounds [of b1] by simp_all
  have s2: "uint b0 + 256 * uint b1 + 65536 * uint b2 < 2 ^ 24"
       "0 \<le> uint b0 + 256 * uint b1 + 65536 * uint b2"
    using uint_byte_bounds [of b0] uint_byte_bounds [of b1] uint_byte_bounds [of b2]
    by simp_all
  have "(push_bit 0 (uint b0) AND 0xFF) OR (push_bit 8 (uint b1) AND 0xFFFF)
      OR (push_bit 16 (uint b2) AND 0xFFFFFF) OR (push_bit 24 (uint b3) AND 0xFFFFFFFF)
      = ((uint b0 + 256 * uint b1) OR push_bit 16 (uint b2)) OR push_bit 24 (uint b3)"
    by (simp only: a2 a3 le16_value [of b0 b1, symmetric] or.assoc)
  also have "\<dots> = (uint b0 + 256 * uint b1 + 65536 * uint b2) OR push_bit 24 (uint b3)"
    using or_push_bit_add [OF s1(2) s1(1), of "uint b2"] by simp
  also have "\<dots> = uint b0 + 256 * uint b1 + 65536 * uint b2 + 16777216 * uint b3"
    using or_push_bit_add [OF s2(2) s2(1), of "uint b3"] by simp
  finally show ?thesis .
qed

lemma get_int16_le:
  assumes "0 \<le> a" and "a + 1 < int (length d)"
  shows "get_int16 d a = Inr (uint (d ! nat a) + 256 * uint (d ! nat (a + 1)))"
  using assms le16_value [of "d ! nat a" "d ! nat (a + 1)"]
  by (simp add: get_int16_def py_index_def)

lemma get_int32_le:
  assumes "0 \<le> a" and "a + 3 < int (length d)"
  shows "get_int32 d a = Inr (u32_at d (nat a))"
  using assms le32_value [of "d ! nat a" "d ! nat (a + 1)" "d ! nat (a + 2)" "d ! nat (a + 3)"]
  by (simp add: get_int32_def py_index_def u32_at_def nat_add_distrib)

lemma u32_at_bounds: "0 \<le> u32_at d a" "u32_at d a < 2 ^ 32"
  using uint_byte_bounds [of "d ! a"] uint_byte_bounds [of "d ! (a + 1)"]
    uint_byte_bounds [of "d ! (a + 2)"] uint_byte_bounds [of "d ! (a + 3)"]
  by (simp_all add: u32_at_def)

section \<open>The pixel classifier\<close>

text \<open>
  C2. For every byte, the decision chain of the image decoder is the ordered rule of the
  specification: 0x00 Outside, 0x01 Wall, 0xFF Inside, 0x07 Scan, and otherwise by the low
  three bits: 0 GreyWall, 1 WallV2, 7 RoomFloor with the room number in the top five bits,
  anything else Unknown. Both sides are functions of the byte, so equal codes give equal
  categories and room numbers.
\<close>

theorem C2_classify_pixel_is_spec_rule:
  "classify_pixel (uint (b::byte)) =
     (case spec_classify b of
        Outside \<Rightarrow> Fixed MAP_OUTSIDE
      | category.Wall \<Rightarrow> Fixed MAP_WALL
      | Inside \<Rightarrow> Fixed MAP_INSIDE
      | Scan \<Rightarrow> Fixed SCAN
      | GreyWall \<Rightarrow> Fixed GREY_WALL
      | WallV2 \<Rightarrow> Fixed MAP_WALL_V2
      | RoomFloor r \<Rightarrow> RoomPixel (uint r)
      | Unknown \<Rightarrow> Fixed UNKNOWN)"
  unfolding classify_pixel_def spec_classify_def get_room_number_def
    MAP_OUTSIDE_code_def MAP_WALL_code_def MAP_INSIDE_code_def MAP_SCAN_code_def Let_def
  using uint_byte_is [of "b AND 7"]
  by (simp add: byte_and_255 uint_byte_is uint_byte_and_255 uint_byte_and_7 drop_bit_uint_byte)

section \<open>Slicing\<close>

text \<open>
  C3, as the code has it. For a non-negative offset and length \<open>_get_bytes\<close> never
  fails: it returns the bytes from the offset up to the offset plus the length, clipped to
  the end of the buffer. That is exactly \<open>length\<close> bytes when the range lies inside the
  buffer and the shorter rest otherwise. A missing byte is only noticed by a later indexed
  read: a 16-bit read whose second byte lies beyond the slice raises IndexError.
\<close>

theorem C3_get_bytes_clips:
  assumes "0 \<le> start" and "0 \<le> n"
  shows "get_bytes data start n = take (nat n) (drop (nat start) data)
     \<and> int (length (get_bytes data start n)) = min n (max 0 (int (length data) - start))
     \<and> (start + n \<le> int (length data) \<longrightarrow> int (length (get_bytes data start n)) = n)
     \<and> (\<forall>k. int (length (get_bytes data start n)) \<le> k + 1 \<longrightarrow> 0 \<le> k \<longrightarrow>
            get_int16 (get_bytes data start n) k = Inl IndexError)"
proof -
  have eq: "get_bytes data start n = take (nat n) (drop (nat start) data)"
    using assms by (rule get_bytes_nonneg)
  have len: "int (length (get_bytes data start n)) = min n (max 0 (int (length data) - start))"
    using assms by (simp add: eq)
  have rd: "get_int16 d k = Inl IndexError" if "int (length d) \<le> k + 1" "0 \<le> k"
    for d :: "byte list" and k
    using that by (cases "k < int (length d)") (simp_all add: get_int16_def py_index_def)
  show ?thesis using eq len rd assms by auto
qed

theorem C3_get_bytes_clips_witness:
  "get_bytes [1, 2, 3, 4] 1 2 = [2, 3]
     \<and> int (length (get_bytes [1, 2, 3, 4] 1 2)) = 2
     \<and> get_int16 (get_bytes [1, 2, 3, 4] 1 2) 1 = Inl IndexError"
  using C3_get_bytes_clips [of 1 2 "[1, 2, 3, 4]"] by (simp add: get_int16_def py_index_def)

text \<open>
  The slice of five bytes at offset 1 of a buffer of three bytes is not a failure: it is
  the two bytes that are there.
\<close>

theorem C3_get_bytes_truncates:
  "1 + 5 > int (length [1, 2, 3 :: byte]) \<and> get_bytes [1, 2, 3] 1 5 = [2, 3]"
  by (simp add: get_bytes_def py_slice_def slice_bound_def)

section \<open>Position blocks\<close>

text \<open>
  C6, as the code has it. For a position block whose body length is greater than 8 and
  whose body holds the twelve bytes, the decoded angle is the raw little-endian 32-bit
  value at offset 8 when that is at most 0xFF and \<open>(raw & 0xFF) - 256\<close> when it is
  greater. So the raw value 10 stays 10, and the raw value 300 becomes
  \<open>(300 & 0xFF) - 256 = -212\<close>.
\<close>

theorem C6_position_angle:
  assumes "12 \<le> length data" and "block_data_length > 8"
  shows "parse_object_position block_data_length data =
           Inr (Point (u32_at data 0) (u32_at data 4)
                  (Some (if u32_at data 8 \<le> 0xFF then u32_at data 8
                         else (u32_at data 8 AND 0xFF) - 256)))"
  using assms get_int32_le [of 0 data] get_int32_le [of 4 data] get_int32_le [of 8 data]
  by (simp add: parse_object_position_def)

theorem C6_position_angle_witness:
  "parse_object_position 12 [1, 0, 0, 0, 2, 0, 0, 0, 10, 0, 0, 0] = Inr (Point 1 2 (Some 10))
   \<and> parse_object_position 12 [1, 0, 0, 0, 2, 0, 0, 0, 44, 1, 0, 0] = Inr (Point 1 2 (Some (- 212)))"
  using C6_position_angle [of "[1, 0, 0, 0, 2, 0, 0, 0, 10, 0, 0, 0]" 12]
    C6_position_angle [of "[1, 0, 0, 0, 2, 0, 0, 0, 44, 1, 0, 0]" 12]
  by (simp add: u32_at_def)

text \<open>The raw angle 300 does not normalise to 44.\<close>

theorem C6_raw_300_is_not_44:
  "get_int32 [0, 0, 0, 0, 0, 0, 0, 0, 44, 1, 0, 0] 8 = Inr 300
   \<and> parse_object_position 12 [0, 0, 0, 0, 0, 0, 0, 0, 44, 1, 0, 0] \<noteq> Inr (Point 0 0 (Some 44))"
  by (simp add: parse_object_position_def get_int32_def py_index_def)

section \<open>The room at a pixel\<close>

text \<open>
  C8, as the code has it. \<open>get_room_at_pixel\<close> reads the byte at the linear index
  \<open>x + width * y\<close> with Python's indexing: it raises IndexError exactly when that index
  is below minus the buffer length or at least the buffer length, and a negative index in
  range counts from the end of the buffer. It returns the room number of the byte read
  if and only if that byte classifies as a room pixel, and nothing for any other byte.
\<close>

theorem C8_get_room_at_pixel:
  "get_room_at_pixel raw_data width x y =
     (let i = x + width * y; n = int (length raw_data)
      in if i < - n \<or> n \<le> i then Inl IndexError
         else Inr (case classify_pixel (uint (raw_data ! nat (if i < 0 then i + n else i))) of
                     RoomPixel r \<Rightarrow> Some r
                   | Fixed c \<Rightarrow> None))"
  by (auto simp: get_room_at_pixel_def py_index_def Let_def classify_pixel_def
        MAP_OUTSIDE_code_def MAP_WALL_code_def MAP_INSIDE_code_def MAP_SCAN_code_def)

text \<open>
  A negative \<open>x\<close> and an \<open>x\<close> beyond the width do not fail: they read another pixel.
\<close>

theorem C8_out_of_range_reads_other_pixel:
  "get_room_at_pixel [0x00, 0x1F] 2 (- 1) 0 = Inr (Some 3)
   \<and> get_room_at_pixel [0x00, 0x00, 0x1F, 0x00] 2 2 0 = Inr (Some 3)"
  by (simp add: get_room_at_pixel_def py_index_def get_room_number_def
        MAP_INSIDE_code_def MAP_SCAN_code_def)

section \<open>Obstacles\<close>

lemma py_range_from_0:
  assumes "0 < step" and "0 \<le> n"
  shows "py_range 0 (n * step) step = Inr (map (\<lambda>k. int k * step) [0..<nat n])"
proof -
  have "(n * step + step - 1) div step = n"
  proof -
    have "(n * step + step - 1) = (step - 1) + n * step" by simp
    then have "(n * step + step - 1) div step = (step - 1) div step + n"
      using assms by (metis  div_mult_self1 less_irrefl mult.commute add.commute )
    then show ?thesis using assms by simp
  qed
  then show ?thesis using assms by (simp add: py_range_def)
qed

lemma get_int16_nonneg: "get_int16 d a = Inr v \<Longrightarrow> 0 \<le> v"
  using uint_byte_bounds
  by (auto simp: get_int16_def ebind_eq_Inr le16_value)



lemma emap_total:
  "(\<And>v. v \<in> set vs \<Longrightarrow> \<exists>r. f v = Inr r) \<Longrightarrow> \<exists>rs. emap f vs = Inr rs \<and> length rs = length vs"
proof (induction vs)
  case Nil
  then show ?case by simp
next
  case (Cons v vs)
  from Cons.prems obtain r where r: "f v = Inr r" by auto
  from Cons obtain rs where rs: "emap f vs = Inr rs" "length rs = length vs" by auto
  show ?case by (simp add: r rs)
qed

lemma get_int16_ok:
  "0 \<le> a \<Longrightarrow> a + 1 < int (length d) \<Longrightarrow> \<exists>v. get_int16 d a = Inr v"
  by (simp add: get_int16_le)

lemma parse_obstacle_reads:
  assumes "0 \<le> start" and "start + sz \<le> int (length data)" and "4 \<le> sz" and "sz \<noteq> 28"
  shows "\<exists>ob. parse_obstacle data sz start = Inr ob"
proof -
  have r0: "get_int16 data (start + 0) = Inr (uint (data ! nat start) + 256 * uint (data ! nat (start + 1)))"
    using assms get_int16_le [of start data] by simp
  have r2: "\<exists>v. get_int16 data (start + 2) = Inr v"
    using assms by (intro get_int16_ok) simp_all
  have r4: "6 \<le> sz \<Longrightarrow> \<exists>v. get_int16 data (start + 4) = Inr v"
    using assms by (intro get_int16_ok) simp_all
  have r6: "10 \<le> sz \<Longrightarrow> \<exists>v. get_int16 data (start + 6) = Inr v"
    using assms by (intro get_int16_ok) simp_all
  have r8: "10 \<le> sz \<Longrightarrow> \<exists>v. get_int16 data (start + 8) = Inr v"
    using assms by (intro get_int16_ok) simp_all
  show ?thesis
    using r0 r2 r4 r6 r8 assms(4)
    by (cases "6 \<le> sz"; cases "10 \<le> sz") (auto simp: parse_obstacle_def Let_def)
qed

text \<open>
  C5, as the code has it. With the record count read from the header: a count of zero
  gives the empty list. Otherwise the record size is the integer quotient of the body
  length by the count, and nothing checks that the division is exact: the records are
  decoded at the multiples of that truncated size, and the bytes left over are ignored.
  A size of zero (a body shorter than the count) raises ValueError, from the zero step of
  the range. With a size of at least 4 other than 28 every record is decoded and the
  result has one obstacle per record. (The source divides in floating point and
  truncates; for the lengths of a buffer that is the integer quotient.)
\<close>

theorem C5_obstacle_record_size:
  assumes "get_int16 header 0x08 = Inr obstacle_pairs"
  shows "(obstacle_pairs = 0 \<longrightarrow> parse_obstacles data header = Inr [])
   \<and> (obstacle_pairs \<noteq> 0 \<longrightarrow>
        parse_obstacles data header =
          (let obstacle_size = int (length data) div obstacle_pairs
           in if obstacle_size = 0 then Inl ValueError
              else emap (parse_obstacle data obstacle_size)
                     (map (\<lambda>k. int k * obstacle_size) [0..<nat obstacle_pairs])))
   \<and> (obstacle_pairs \<noteq> 0 \<and> 4 \<le> int (length data) div obstacle_pairs
        \<and> int (length data) div obstacle_pairs \<noteq> 28 \<longrightarrow>
        (\<exists>obstacles. parse_obstacles data header = Inr obstacles
           \<and> length obstacles = nat obstacle_pairs))"
proof -
  have pos: "0 \<le> obstacle_pairs" using assms by (rule get_int16_nonneg)
  define sz where "sz = int (length data) div obstacle_pairs"
  have sz_nonneg: "0 \<le> sz" using pos by (simp add: sz_def div_int_pos_iff)
  have zero: "obstacle_pairs = 0 \<Longrightarrow> parse_obstacles data header = Inr []"
    using assms by (simp add: parse_obstacles_def)
  have unfold: "parse_obstacles data header =
      (if sz = 0 then Inl ValueError
       else emap (parse_obstacle data sz) (map (\<lambda>k. int k * sz) [0..<nat obstacle_pairs]))"
    if "obstacle_pairs \<noteq> 0"
  proof (cases "sz = 0")
    case True
    then show ?thesis using assms that
      by (simp add: parse_obstacles_def py_range_def flip: sz_def)
  next
    case False
    then have "0 < sz" using sz_nonneg by simp
    then show ?thesis using assms that pos py_range_from_0 [of sz obstacle_pairs]
      by (simp add: parse_obstacles_def flip: sz_def)
  qed
  have reads: "\<exists>obstacles. parse_obstacles data header = Inr obstacles
           \<and> length obstacles = nat obstacle_pairs"
    if ne: "obstacle_pairs \<noteq> 0" and big: "4 \<le> sz" and n28: "sz \<noteq> 28"
  proof -
    have fit: "obstacle_pairs * sz \<le> int (length data)"
    proof -
      have "0 < obstacle_pairs" using pos ne by simp
      then have "0 \<le> int (length data) mod obstacle_pairs" by simp
      moreover have "obstacle_pairs * sz + int (length data) mod obstacle_pairs = int (length data)"
        by (simp add: sz_def)
      ultimately show ?thesis by linarith
    qed
    have each: "\<exists>r. parse_obstacle data sz v = Inr r"
      if "v \<in> set (map (\<lambda>k. int k * sz) [0..<nat obstacle_pairs])" for v
    proof -
      from that obtain k where k: "k < nat obstacle_pairs" "v = int k * sz" by auto
      have "(int k + 1) * sz \<le> obstacle_pairs * sz"
        using k big by (intro mult_right_mono) simp_all
      then have "v + sz \<le> int (length data)" using fit k by (simp add: algebra_simps)
      moreover have "0 \<le> v" using k big by simp
      ultimately show ?thesis using big n28 by (intro parse_obstacle_reads) simp_all
    qed
    from emap_total [of "map (\<lambda>k. int k * sz) [0..<nat obstacle_pairs]" "parse_obstacle data sz", OF each]
    show ?thesis using unfold [OF ne] big by auto
  qed
  show ?thesis using zero unfold reads by (simp add: Let_def flip: sz_def)
qed

theorem C5_obstacle_record_size_witness:
  "get_int16 [0, 0, 0, 0, 0, 0, 0, 0, 2, 0] 0x08 = Inr 2
   \<and> (\<exists>obstacles. parse_obstacles [1, 0, 2, 0, 3, 0, 4, 0, 9] [0, 0, 0, 0, 0, 0, 0, 0, 2, 0]
                       = Inr obstacles \<and> length obstacles = 2)"
proof -
  have h: "get_int16 [0, 0, 0, 0, 0, 0, 0, 0, 2, 0] 0x08 = Inr 2"
    by (simp add: get_int16_def py_index_def)
  have p: "(2::int) \<noteq> 0 \<and> 4 \<le> int (length [1, 0, 2, 0, 3, 0, 4, 0, 9 :: byte]) div 2
             \<and> int (length [1, 0, 2, 0, 3, 0, 4, 0, 9 :: byte]) div 2 \<noteq> 28"
    by simp
  from C5_obstacle_record_size [OF h, of "[1, 0, 2, 0, 3, 0, 4, 0, 9]"] p
  have "\<exists>obstacles. parse_obstacles [1, 0, 2, 0, 3, 0, 4, 0, 9] [0, 0, 0, 0, 0, 0, 0, 0, 2, 0]
                       = Inr obstacles \<and> length obstacles = nat 2"
    by blast
  then show ?thesis using h by simp
qed

text \<open>
  A body of nine bytes with a record count of two is not rejected: the record size is
  four and two obstacles are decoded.
\<close>

theorem C5_uneven_body_is_decoded:
  "int (length [1, 0, 2, 0, 3, 0, 4, 0, 9 :: byte]) mod 2 \<noteq> 0
   \<and> parse_obstacles [1, 0, 2, 0, 3, 0, 4, 0, 9] [0, 0, 0, 0, 0, 0, 0, 0, 2, 0]
       = Inr [Obstacle 1 2 new_details, Obstacle 3 4 new_details]"
  by (simp add: parse_obstacles_def parse_obstacle_def get_int16_def py_index_def
        py_range_def upt_rec)

section \<open>The image decoder\<close>

subsection \<open>The source index of an output pixel\<close>

lemma source_index_closed_form:
  "img_x + row_offset width trim_left trim_bottom img_y
     = (img_x + trim_left) + width * (img_y + trim_bottom)
       + trim_left * (img_y + trim_bottom - 1)"
  by (simp add: row_offset_def algebra_simps)

lemmas image_eval =
  image_parse_def pixel_step_def py_range1_def row_offset_def py_index_def
  classify_pixel_def get_room_number_def room_update_def
  MAP_OUTSIDE_code_def MAP_WALL_code_def MAP_INSIDE_code_def MAP_SCAN_code_def upt_rec Let_def

text \<open>
  C1. The decoder reads the pixel code, and tests the carpet map, at
  \<open>img_x + (trim_left + width) * (img_y + trim_bottom)\<close>: the left trim is added to
  the row stride, not to the column. On a source of width 2 and height 1 with a left
  trim of one pixel, the only output pixel is source pixel \<open>(1, 0)\<close>, a wall, yet the
  decoder reads index 0 and paints it as outside. On a source of width 2 and height 3
  with the same trim the index of the last row is 6, beyond the six bytes, and the
  decoder raises IndexError. The index over the untrimmed layout,
  \<open>(img_x + trim_left) + width * (img_y + trim_bottom)\<close>, is 1 and 5 there.
\<close>

theorem C1_index_adds_left_trim_to_stride:
  "image_parse Fixed RoomPixel \<lparr>px_left = 1, px_right = 0, px_top = 0, px_bottom = 0\<rparr>
       Map.empty [0x00, 0x01] 2 1 None
     = Inr (Some (1, 1, [(0, 0) \<mapsto> Fixed MAP_OUTSIDE]), Map.empty, Map.empty)
   \<and> image_parse Fixed RoomPixel \<lparr>px_left = 1, px_right = 0, px_top = 0, px_bottom = 0\<rparr>
       Map.empty [0, 0, 0, 0, 0, 0] 2 3 None
     = Inl IndexError
   \<and> 0 + row_offset 2 1 0 0 \<noteq> (0 + 1) + 2 * (0 + 0)
   \<and> 0 + row_offset 2 1 0 2 \<noteq> (0 + 1) + 2 * (2 + 0)"
  by (simp add: image_eval)

subsection \<open>Bounding boxes\<close>










subsection \<open>The room-colour dictionary\<close>










section \<open>Mop paths\<close>

lemma expected_polylines_nonempty: "expected_polylines ((p, m) # rest) \<noteq> []" if "m \<noteq> 0"
  using that by (simp add: expected_polylines_def)

lemma mop_split_runs:
  assumes "cur \<noteq> [] \<longrightarrow> zs = [] \<or> snd (hd zs) \<noteq> 0"
  shows "fst (mop_split cur zs) @ [snd (mop_split cur zs)] =
           (case zs of
              [] \<Rightarrow> [cur]
            | (p, m) # _ \<Rightarrow>
                if m \<noteq> 0 then (cur @ hd (expected_polylines zs)) # tl (expected_polylines zs)
                else expected_polylines zs)"
  using assms
proof (induction zs arbitrary: cur)
  case Nil
  then show ?case by simp
next
  case (Cons z rest)
  obtain p m where z: "z = (p, m)" by (cases z)
  show ?case
  proof (cases "m = 0")
    case True
    with Cons.prems have cur: "cur = []" by (auto simp: z)
    show ?thesis
    proof (cases rest)
      case Nil
      then show ?thesis by (simp add: z True cur expected_polylines_def)
    next
      case (Cons y r)
      obtain q k where y: "y = (q, k)" by (cases y)
      have "fst (mop_split [] rest) @ [snd (mop_split [] rest)] = expected_polylines rest"
        using Cons.IH [of "[]"] expected_polylines_nonempty [of k q r]
        by (simp add: Cons y split: if_splits)
      moreover have "expected_polylines (z # rest) = expected_polylines rest"
        by (simp add: z True Cons expected_polylines_def)
      ultimately show ?thesis by (simp add: z True cur)
    qed
  next
    case False
    show ?thesis
    proof (cases rest)
      case Nil
      then show ?thesis using False by (simp add: z expected_polylines_def)
    next
      case (Cons y r)
      obtain q k where y: "y = (q, k)" by (cases y)
      show ?thesis
      proof (cases "k = 0")
        case True
        have "fst (mop_split [] rest) @ [snd (mop_split [] rest)] = expected_polylines rest"
          using Cons.IH [of "[]"] by (simp add: Cons y True)
        moreover have "expected_polylines (z # rest) = [p] # expected_polylines rest"
          using False by (simp add: z Cons y True expected_polylines_def)
        ultimately show ?thesis using False by (simp add: z Cons y True)
      next
        case k: False
        have ih: "fst (mop_split (cur @ [p]) rest) @ [snd (mop_split (cur @ [p]) rest)]
             = ((cur @ [p]) @ hd (expected_polylines rest)) # tl (expected_polylines rest)"
          using Cons.IH [of "cur @ [p]"] k by (simp add: Cons y)
        have "hd (expected_polylines (z # rest)) = p # hd (expected_polylines rest)"
          "tl (expected_polylines (z # rest)) = tl (expected_polylines rest)"
          using False k by (simp_all add: z Cons y expected_polylines_def)
        then show ?thesis using False k ih by (simp add: z Cons y)
      qed
    qed
  qed
qed

lemma mop_point_step:
  assumes k: "k < length ms"
  shows "mop_point ms (k, x) (paths, num, cur) =
     (if ms ! k \<noteq> 0
      then (if Suc k < length ms \<and> ms ! Suc k = 0
            then Inr (paths @ [cur @ [x]], num + int (length (cur @ [x])), [])
            else Inr (paths, num, cur @ [x]))
      else Inr (paths, num, cur))"
  using k by (auto simp: mop_point_def py_index_def Let_def nat_add_distrib)

lemma mop_loop_split:
  assumes "k + length xs = length ms"
  shows "efold (mop_point ms) (enumerate k xs) (paths, num, cur) =
           Inr (paths @ fst (mop_split cur (zip xs (drop k ms))),
                num + int (sum_list (map length (fst (mop_split cur (zip xs (drop k ms)))))),
                snd (mop_split cur (zip xs (drop k ms))))"
  using assms
proof (induction xs arbitrary: k paths num cur)
  case Nil
  then show ?case by simp
next
  case (Cons x xs)
  then have k: "k < length ms" and next_len: "Suc k + length xs = length ms" by simp_all
  have dk: "drop k ms = ms ! k # drop (Suc k) ms"
    using k by (simp add: Cons_nth_drop_Suc)
  note ih = Cons.IH [OF next_len]
  show ?case
  proof (cases xs)
    case Nil
    then show ?thesis using k next_len
      by (simp add: mop_point_step dk)
  next
    case (Cons x' xs')
    then have k1: "Suc k < length ms" using next_len by simp
    have dk1: "drop (Suc k) ms = ms ! Suc k # drop (Suc (Suc k)) ms"
      using k1 by (simp add: Cons_nth_drop_Suc)
    show ?thesis
      using k k1 ih
      by (simp add: mop_point_step dk) (simp add: Cons dk1)
  qed
qed

lemma sum_list_snoc_lengths:
  "int (sum_list (map length F)) + int (length c) = int (sum_list (map length (F @ [c])))"
  by simp

text \<open>
  C4, as the code has it. For a path with a single polyline of \<open>n\<close> points and a mask
  of \<open>n\<close> bytes, \<open>_parse_mop_path\<close> returns the maximal runs of points with a non-zero
  mask byte, one polyline per run in source order, followed by one empty polyline when
  the mask is empty or ends with a zero byte; the point count is the sum of the run
  lengths, and the point size and angle are those of the path.
\<close>

theorem C4_mop_path_runs:
  assumes "length points_mask = length points"
  shows "parse_mop_path (Path point_length point_size angle [points]) points_mask =
           Inr (Path (int (sum_list (map length (mask_runs (zip points points_mask)))))
                  point_size angle
                  (mask_runs (zip points points_mask)
                     @ (if points = [] \<or> last points_mask = 0 then [[]] else [])))"
proof -
  let ?zs = "zip points points_mask"
  have loop: "efold (mop_point points_mask) (enumerate 0 points) ([], 0, []) =
           Inr (fst (mop_split [] ?zs), int (sum_list (map length (fst (mop_split [] ?zs)))),
                snd (mop_split [] ?zs))"
    using mop_loop_split [of 0 points points_mask "[]" 0 "[]"] assms by simp
  have split: "fst (mop_split [] ?zs) @ [snd (mop_split [] ?zs)] = expected_polylines ?zs"
  proof (cases points)
    case Nil
    then show ?thesis by (simp add: expected_polylines_def)
  next
    case (Cons x xs)
    with assms obtain m ms where ms: "points_mask = m # ms" by (cases points_mask) auto
    show ?thesis
      using mop_split_runs [of "[]" ?zs] expected_polylines_nonempty [of m x "zip xs ms"]
      by (simp add: Cons ms split: if_splits)
  qed
  have last_eq: "snd (last ?zs) = last points_mask" if "points \<noteq> []"
  proof -
    from that assms have "points_mask \<noteq> []" by auto
    with that assms show ?thesis by (simp add: last_zip)
  qed
  have exp: "expected_polylines ?zs =
      mask_runs ?zs @ (if points = [] \<or> last points_mask = 0 then [[]] else [])"
    using assms last_eq by (cases "points = []") (auto simp: expected_polylines_def)
  have count: "int (sum_list (map length (fst (mop_split [] ?zs)))) + int (length (snd (mop_split [] ?zs)))
      = int (sum_list (map length (mask_runs ?zs)))"
    unfolding sum_list_snoc_lengths split exp by simp
  show ?thesis
    using loop count split exp
    by (simp add: parse_mop_path_def mop_each_path_def)
qed

theorem C4_mop_path_runs_witness:
  "parse_mop_path
     (Path 5 2 7 [[Point 0 0 None, Point 1 1 None, Point 2 2 None, Point 3 3 None,
                   Point 4 4 None]])
     [1, 1, 0, 1, 1]
   = Inr (Path 4 2 7 [[Point 0 0 None, Point 1 1 None], [Point 3 3 None, Point 4 4 None]])"
  using C4_mop_path_runs
    [of "[1, 1, 0, 1, 1]"
        "[Point 0 0 None, Point 1 1 None, Point 2 2 None, Point 3 3 None, Point 4 4 None]"
        5 2 7]
  by simp

text \<open>
  Three points with the mask \<open>[1, 1, 0]\<close> have one run, and the result has two
  polylines: the run and an empty one.
\<close>

theorem C4_trailing_empty_polyline:
  "parse_mop_path (Path 3 0 0 [[Point 0 0 None, Point 1 1 None, Point 2 2 None]]) [1, 1, 0]
     = Inr (Path 2 0 0 [[Point 0 0 None, Point 1 1 None], []])
   \<and> mask_runs (zip [Point 0 0 None, Point 1 1 None, Point 2 2 None] [1, 1, 0])
     = [[Point 0 0 None, Point 1 1 None]]"
  by (simp add: parse_mop_path_def mop_each_path_def mop_point_def py_index_def
        enumerate_eq_zip upt_rec)

section \<open>The scanning loop\<close>










end
